theory Spec2Isabelle
  imports Complex_Main "HOL-Library.Stream"
begin

section \<open>Unsteady MHD Couette flow: solver, diagnostics, nanofluid mixtures, optimizer\<close>

text \<open>
  A shallow embedding of the numerical core of the application
  (\<^verbatim>\<open>solveUnsteadyMHDCouette\<close>, \<^verbatim>\<open>computeNanofluidProperties\<close> and
  \<^verbatim>\<open>TransientOptimizer\<close>).

  Conventions of the embedding.
  \<^item> A JavaScript number is a \<open>real\<close>: arithmetic is exact, there is no rounding, no
    infinity and no NaN. Where the source can produce an infinity that changes the
    control flow (the step count \<open>Nt\<close>), the model says so explicitly. Division by zero
    is \<open>0\<close> in HOL and an infinity or NaN in the source: the theorems assume what keeps
    the divisors they depend on away from zero.
  \<^item> An array of numbers is a \<open>real list\<close>, updated by index with \<open>xs[i := v]\<close>. All
    index accesses of the solver are in range when the array has \<open>N + 1\<close> entries and
    \<open>1 \<le> N\<close>; the theorems about the entries carry this assumption.
  \<^item> \<^verbatim>\<open>Math.random()\<close> is a draw from a stream of reals; the theorems about the
    optimizer assume every draw to lie in \<open>[0, 1)\<close>.
  \<^item> An exception is a value of type \<open>error\<close> on the left of a sum.
\<close>

subsection \<open>Nanoparticle database and mixture calculator\<close>

text \<open>
  An entry of \<^verbatim>\<open>NANOPARTICLES\<close>. Only the four physical constants are kept; the fields
  \<^verbatim>\<open>name\<close>, \<^verbatim>\<open>icon\<close> and \<^verbatim>\<open>desc\<close> are display strings that no computation reads.
\<close>

record particle =
  rho_p :: real
  k_p :: real
  Cp_p :: real
  sigma_p :: real

text \<open>
  The object literal \<^verbatim>\<open>NANOPARTICLES\<close> as a finite map over its own eight keys;
  the property names that every JavaScript object inherits from its prototype (such as
  \<^verbatim>\<open>constructor\<close>) are not modelled. \<open>5.96e7\<close> is \<open>59600000\<close>, \<open>1e-10\<close> is
  \<open>1 / 10 ^ 10\<close>, and so on.
\<close>

definition NANOPARTICLES :: "string \<rightharpoonup> particle" where
  "NANOPARTICLES =
     [''Cu'' \<mapsto> \<lparr>rho_p = 8933, k_p = 401, Cp_p = 385, sigma_p = 59600000\<rparr>,
      ''Al2O3'' \<mapsto> \<lparr>rho_p = 3970, k_p = 40, Cp_p = 765, sigma_p = 1 / 10 ^ 10\<rparr>,
      ''TiO2'' \<mapsto> \<lparr>rho_p = 4250, k_p = 895 / 100, Cp_p = 686, sigma_p = 1 / 10 ^ 12\<rparr>,
      ''Ag'' \<mapsto> \<lparr>rho_p = 10500, k_p = 429, Cp_p = 235, sigma_p = 63000000\<rparr>,
      ''Fe3O4'' \<mapsto> \<lparr>rho_p = 5180, k_p = 97 / 10, Cp_p = 670, sigma_p = 25000\<rparr>,
      ''SiO2'' \<mapsto> \<lparr>rho_p = 2200, k_p = 14 / 10, Cp_p = 745, sigma_p = 1 / 10 ^ 14\<rparr>,
      ''CuO'' \<mapsto> \<lparr>rho_p = 6320, k_p = 765 / 10, Cp_p = 532, sigma_p = 1 / 10 ^ 10\<rparr>,
      ''ZnO'' \<mapsto> \<lparr>rho_p = 5606, k_p = 29, Cp_p = 523, sigma_p = 1 / 10 ^ 8\<rparr>]"

text \<open>The five property ratios returned by the calculator.\<close>

record ratios =
  A1 :: real
  A2 :: real
  A3 :: real
  A4 :: real
  A5 :: real

definition rho_f :: real where "rho_f = 997"
definition k_f :: real where "k_f = 613 / 1000"
definition Cp_f :: real where "Cp_f = 4179"
definition sigma_f :: real where "sigma_f = 5 / 100"

text \<open>
  \<^verbatim>\<open>computeNanofluidProperties(type, phi)\<close>. The guard \<^verbatim>\<open>!NANOPARTICLES[type]\<close> is the
  lookup failing; \<^verbatim>\<open>Math.pow(1 - phi, 2.5)\<close> is \<open>(1 - phi) powr (5 / 2)\<close>.
\<close>

definition computeNanofluidProperties :: "string \<Rightarrow> real \<Rightarrow> ratios" where
  "computeNanofluidProperties type phi =
     (case NANOPARTICLES type of
        None \<Rightarrow> \<lparr>A1 = 12 / 10, A2 = 15 / 10, A3 = 13 / 10, A4 = 11 / 10, A5 = 115 / 100\<rparr>
      | Some p \<Rightarrow>
          (let a4 = ((1 - phi) * rho_f + phi * rho_p p) / rho_f;
               a1 = 1 / (1 - phi) powr (5 / 2);
               a3 = (k_p p + 2 * k_f + 2 * phi * (k_p p - k_f)) /
                    (k_p p + 2 * k_f - phi * (k_p p - k_f));
               a5 = ((1 - phi) * rho_f * Cp_f + phi * rho_p p * Cp_p p) / (rho_f * Cp_f);
               sr = sigma_p p / sigma_f;
               a2 = 1 + 3 * phi * (sr - 1) / (sr + 2 - phi * (sr - 1))
           in \<lparr>A1 = a1, A2 = a2, A3 = a3, A4 = a4, A5 = a5\<rparr>))"

subsection \<open>The transient solver\<close>

text \<open>
  The parameter record: the five ratios and the flow parameters. \<open>Re_p\<close>, \<open>G_p\<close> and
  \<open>N_p\<close> are the source's \<^verbatim>\<open>Re\<close>, \<^verbatim>\<open>G\<close> and \<^verbatim>\<open>N\<close> (the destructuring default
  \<^verbatim>\<open>N = 50\<close> is applied by the caller of the model).
\<close>

record params = ratios +
  Re_p :: real
  Ha :: real
  Pr :: real
  Ec :: real
  Bi :: real
  lambda :: real
  G_p :: real
  N_p :: nat

text \<open>\<^verbatim>\<open>for (let i = lo; i < hi; i++) body\<close>, threading the mutated variables.\<close>

definition for_loop :: "nat \<Rightarrow> nat \<Rightarrow> (nat \<Rightarrow> 's \<Rightarrow> 's) \<Rightarrow> 's \<Rightarrow> 's" where
  "for_loop lo hi body s = fold body [lo..<hi] s"

text \<open>
  The first derivative on the grid, as the source recomputes it into \<^verbatim>\<open>Wp\<close> and
  \<^verbatim>\<open>Thetap\<close>: central differences at the interior nodes, one-sided differences at the two
  plates. The target array starts as \<^verbatim>\<open>new Array(N + 1).fill(0)\<close>; every entry is
  overwritten.
\<close>

definition deriv :: "nat \<Rightarrow> real \<Rightarrow> real list \<Rightarrow> real list" where
  "deriv n h f =
     (let fp = for_loop 1 n (\<lambda>i a. a[i := (f ! (i + 1) - f ! (i - 1)) / (2 * h)])
                 (replicate (n + 1) 0);
          fp = fp[0 := (f ! 1 - f ! 0) / h]
      in fp[n := (f ! n - f ! (n - 1)) / h])"

definition grid_h :: "params \<Rightarrow> real" where
  "grid_h p = 1 / real (N_p p)"

definition eta :: "params \<Rightarrow> real list" where
  "eta p = map (\<lambda>i. real i * grid_h p) [0..<N_p p + 1]"

text \<open>The initial condition (lines 295 to 301).\<close>

definition W_init :: "params \<Rightarrow> real list" where
  "W_init p = map (\<lambda>i. eta p ! i * Re_p p / (1 + lambda p)) [0..<N_p p + 1]"

definition Theta_init :: "params \<Rightarrow> real list" where
  "Theta_init p = map (\<lambda>i. 1 - (Bi p / (1 + Bi p)) * eta p ! i) [0..<N_p p + 1]"

text \<open>
  The velocity substep of one Picard iteration (lines 333 to 338): the interior nodes
  from the previous iterate \<open>W_prev\<close> and the old time level \<open>W_old\<close>, then the two
  boundary conditions, the upper one reading the node below it after its update.
\<close>

definition W_update :: "params \<Rightarrow> real \<Rightarrow> real list \<Rightarrow> real list \<Rightarrow> real list \<Rightarrow> real list" where
  "W_update p dtau W_old W_prev W =
     (let n = N_p p; h = grid_h p;
          W1 = for_loop 1 n (\<lambda>i w.
                 (let coeff = A1 p / (h * h);
                      diag = 2 * A1 p / (h * h) + A2 p * Ha p * Ha p + A4 p / dtau
                  in w[i := (coeff * (W_prev ! (i - 1) + W_prev ! (i + 1)) + G_p p +
                             (A4 p / dtau) * W_old ! i) / diag])) W;
          W2 = W1[0 := 0]
      in W2[n := (Re_p p + lambda p * W2 ! (n - 1) / h) / (1 + lambda p / h)])"

text \<open>
  The temperature substep (lines 343 to 349), with the source term evaluated on the
  velocity \<open>W\<close> just updated and its derivative \<open>Wp\<close>.
\<close>

definition Theta_update ::
  "params \<Rightarrow> real \<Rightarrow> real list \<Rightarrow> real list \<Rightarrow> real list \<Rightarrow> real list \<Rightarrow> real list \<Rightarrow> real list" where
  "Theta_update p dtau Theta_old Theta_prev W Wp Theta =
     (let n = N_p p; h = grid_h p;
          T1 = for_loop 1 n (\<lambda>i t.
                 (let source = A1 p * Pr p * Ec p * Wp ! i * Wp ! i +
                               A2 p * Pr p * Ec p * Ha p * Ha p * W ! i * W ! i;
                      coeff = A3 p / (h * h);
                      diag = 2 * A3 p / (h * h) + A5 p * Pr p / dtau
                  in t[i := (coeff * (Theta_prev ! (i - 1) + Theta_prev ! (i + 1)) + source +
                             (A5 p * Pr p / dtau) * Theta_old ! i) / diag])) Theta;
          T2 = T1[0 := 1]
      in T2[n := T2 ! (n - 1) / (1 + h * Bi p)])"

text \<open>
  One pass of the Picard loop body up to the convergence test (lines 327 to 349). The
  derivative computed at lines 330 and 331 is overwritten at lines 340 and 341 before
  anything reads it.
\<close>

definition picard_iter ::
  "params \<Rightarrow> real \<Rightarrow> real list \<Rightarrow> real list \<Rightarrow> real list \<times> real list \<Rightarrow> real list \<times> real list" where
  "picard_iter p dtau W_old Theta_old s =
     (let W_prev = fst s; Theta_prev = snd s;
          W' = W_update p dtau W_old W_prev (fst s);
          Wp = deriv (N_p p) (grid_h p) W';
          Theta' = Theta_update p dtau Theta_old Theta_prev W' Wp (snd s)
      in (W', Theta'))"

text \<open>The convergence measure of lines 351 and 352.\<close>

definition maxDiff :: "nat \<Rightarrow> real list \<times> real list \<Rightarrow> real list \<times> real list \<Rightarrow> real" where
  "maxDiff n prev cur =
     for_loop 0 (n + 1)
       (\<lambda>i m. max (max m \<bar>fst cur ! i - fst prev ! i\<bar>) \<bar>snd cur ! i - snd prev ! i\<bar>) 0"

definition tolerance :: real where
  "tolerance = 1 / 10 ^ 10"

text \<open>
  The Picard loop \<^verbatim>\<open>for (let iter = 0; iter < 15; iter++) { ...; if (maxDiff < 1e-10) break; }\<close>.
  The result pairs the fields with the number of loop bodies executed, which the source
  does not return.
\<close>

function picard_loop ::
  "params \<Rightarrow> real \<Rightarrow> real list \<Rightarrow> real list \<Rightarrow> nat \<Rightarrow> real list \<times> real list
     \<Rightarrow> (real list \<times> real list) \<times> nat" where
  "picard_loop p dtau W_old Theta_old iter s =
     (if iter < 15 then
        (let s' = picard_iter p dtau W_old Theta_old s
         in if maxDiff (N_p p) s s' < tolerance then (s', iter + 1)
            else picard_loop p dtau W_old Theta_old (iter + 1) s')
      else (s, iter))"
  by pat_completeness auto
termination
  by (relation "measure (\<lambda>(p, dtau, W_old, Theta_old, iter, s). 15 - iter)") auto

declare picard_loop.simps [simp del]

text \<open>One time step runs the Picard loop from the fields of the old time level.\<close>

definition picard :: "params \<Rightarrow> real \<Rightarrow> real list \<times> real list \<Rightarrow> real list \<times> real list" where
  "picard p dtau s = fst (picard_loop p dtau (fst s) (snd s) 0 s)"

text \<open>
  The recorded trajectory, and the state of the time loop: the trajectory so far and the
  current fields \<^verbatim>\<open>W\<close> and \<^verbatim>\<open>Theta\<close>.
\<close>

record trajectory =
  tauHistory :: "real list"
  WHistory :: "real list list"
  ThetaHistory :: "real list list"
  CfLowerHistory :: "real list"
  CfUpperHistory :: "real list"
  NuLowerHistory :: "real list"
  NuUpperHistory :: "real list"

record solver_state = trajectory +
  cur_W :: "real list"
  cur_Theta :: "real list"

text \<open>
  Recording one sample (lines 357 to 369, and lines 304 to 320 for the first one): the
  time, copies of both fields and the four wall fluxes.
\<close>

definition record_sample :: "params \<Rightarrow> real \<Rightarrow> solver_state \<Rightarrow> solver_state" where
  "record_sample p tau s =
     (let Wp = deriv (N_p p) (grid_h p) (cur_W s);
          Thetap = deriv (N_p p) (grid_h p) (cur_Theta s)
      in s\<lparr>tauHistory := tauHistory s @ [tau],
            WHistory := WHistory s @ [cur_W s],
            ThetaHistory := ThetaHistory s @ [cur_Theta s],
            CfLowerHistory := CfLowerHistory s @ [A1 p * Wp ! 0],
            CfUpperHistory := CfUpperHistory s @ [A1 p * Wp ! N_p p],
            NuLowerHistory := NuLowerHistory s @ [- A3 p * Thetap ! 0],
            NuUpperHistory := NuUpperHistory s @ [- A3 p * Thetap ! N_p p]\<rparr>)"

definition initial_state :: "params \<Rightarrow> solver_state" where
  "initial_state p =
     record_sample p 0
       \<lparr>tauHistory = [], WHistory = [], ThetaHistory = [], CfLowerHistory = [],
        CfUpperHistory = [], NuLowerHistory = [], NuUpperHistory = [],
        cur_W = W_init p, cur_Theta = Theta_init p\<rparr>"

text \<open>
  The body of the time loop for step \<open>n\<close> (lines 323 to 370). \<^verbatim>\<open>n % saveFreq === 0\<close>
  is false for \<open>saveFreq = 0\<close>, where the remainder is NaN.
\<close>

definition time_step :: "params \<Rightarrow> real \<Rightarrow> nat \<Rightarrow> nat \<Rightarrow> nat \<Rightarrow> solver_state \<Rightarrow> solver_state" where
  "time_step p dtau saveFreq Nt n s =
     (let s' = picard p dtau (cur_W s, cur_Theta s);
          s1 = s\<lparr>cur_W := fst s', cur_Theta := snd s'\<rparr>
      in if (saveFreq \<noteq> 0 \<and> n mod saveFreq = 0) \<or> n = Nt
         then record_sample p (real n * dtau) s1 else s1)"

text \<open>
  \<^verbatim>\<open>Nt = Math.floor(tauFinal / dtau)\<close>, as the number of passes of
  \<^verbatim>\<open>for (let n = 1; n <= Nt; n++)\<close>. For \<open>dtau = 0\<close> and \<open>0 < tauFinal\<close> the quotient is
  \<open>+Infinity\<close> and the loop never ends: \<open>None\<close>. For \<open>dtau = 0\<close> otherwise the quotient is
  NaN or \<open>-Infinity\<close> and the loop body never runs.
\<close>

definition step_count :: "real \<Rightarrow> real \<Rightarrow> nat option" where
  "step_count tauFinal dtau =
     (if dtau = 0 then (if 0 < tauFinal then None else Some 0)
      else Some (nat \<lfloor>tauFinal / dtau\<rfloor>))"

text \<open>
  The state of the time loop of a run of \<open>Nt\<close> steps after its first \<open>k\<close> passes, and
  the state when the loop ends.
\<close>

definition state_after :: "params \<Rightarrow> real \<Rightarrow> nat \<Rightarrow> nat \<Rightarrow> nat \<Rightarrow> solver_state" where
  "state_after p dtau saveFreq Nt k =
     for_loop 1 (k + 1) (time_step p dtau saveFreq Nt) (initial_state p)"

definition time_loop :: "params \<Rightarrow> real \<Rightarrow> nat \<Rightarrow> nat \<Rightarrow> solver_state" where
  "time_loop p dtau saveFreq Nt = state_after p dtau saveFreq Nt Nt"

subsection \<open>Diagnostics: rise times and energy integrals\<close>

text \<open>
  The search for the rise times (lines 395 to 399), from index \<open>i\<close> on. The pair is
  \<open>(tau95, tau63)\<close>; \<^verbatim>\<open>break\<close> ends the recursion.
\<close>

function rise_loop ::
  "real \<Rightarrow> real \<Rightarrow> real list \<Rightarrow> real list \<Rightarrow> nat \<Rightarrow> real \<times> real \<Rightarrow> real \<times> real" where
  "rise_loop tauFinal CfFinal cfs taus i (tau95, tau63) =
     (if i < length cfs then
        (let tau63' = (if \<bar>cfs ! i\<bar> \<ge> 63 / 100 * \<bar>CfFinal\<bar> \<and> tau63 = tauFinal
                       then taus ! i else tau63)
         in if \<bar>cfs ! i\<bar> \<ge> 95 / 100 * \<bar>CfFinal\<bar> then (taus ! i, tau63')
            else rise_loop tauFinal CfFinal cfs taus (i + 1) (tau95, tau63'))
      else (tau95, tau63))"
  by pat_completeness auto
termination
  by (relation "measure (\<lambda>(tauFinal, CfFinal, cfs, taus, i, r). length cfs - i)") auto

declare rise_loop.simps [simp del]

text \<open>The four integrals of one sample (the inner loop of lines 417 to 423).\<close>

definition KE_of :: "nat \<Rightarrow> real \<Rightarrow> real list \<Rightarrow> real" where
  "KE_of n h Wt = for_loop 0 n (\<lambda>i KE. KE + 1 / 2 * ((Wt ! i)\<^sup>2 + (Wt ! (i + 1))\<^sup>2) * h) 0"

definition TE_of :: "nat \<Rightarrow> real \<Rightarrow> real list \<Rightarrow> real" where
  "TE_of n h Tt = for_loop 0 n (\<lambda>i TE. TE + 1 / 2 * (Tt ! i + Tt ! (i + 1)) * h) 0"

definition VD_of :: "params \<Rightarrow> real list \<Rightarrow> real" where
  "VD_of p Wt =
     for_loop 0 (N_p p) (\<lambda>i VD.
       (let wp_i = (Wt ! (i + 1) - Wt ! i) / grid_h p
        in VD + A1 p * Pr p * Ec p * wp_i\<^sup>2 * grid_h p)) 0"

definition JH_of :: "params \<Rightarrow> real list \<Rightarrow> real" where
  "JH_of p Wt =
     for_loop 0 (N_p p) (\<lambda>i JH. JH + A2 p * Pr p * Ec p * Ha p * Ha p * (Wt ! i)\<^sup>2 * grid_h p) 0"

text \<open>
  The kinetic energy of one sample in the words of the specification: the trapezoidal
  rule over the grid for the integrand \<open>W\<^sup>2 / 2\<close>, that is the sum over the intervals of
  the mean of the integrand at the two ends times \<open>h\<close>.
\<close>

definition KE_spec :: "nat \<Rightarrow> real \<Rightarrow> real list \<Rightarrow> real" where
  "KE_spec n h Wt = (\<Sum>i<n. (1 / 2 * (Wt ! i)\<^sup>2 + 1 / 2 * (Wt ! (i + 1))\<^sup>2) / 2 * h)"

text \<open>
  The part of the returned object that the properties below read: the trajectory, the
  energy histories and the rise times. The entropy profiles, the overshoot, the peak and
  settling times and the chart data are computed from the same trajectory and are not
  modelled.
\<close>

record solution = trajectory +
  kineticEnergy :: "real list"
  thermalEnergy :: "real list"
  viscousDissipation :: "real list"
  jouleHeating :: "real list"
  CfFinal :: real
  NuFinal :: real
  tau95 :: real
  tau63 :: real

definition diagnostics :: "params \<Rightarrow> real \<Rightarrow> solver_state \<Rightarrow> solution" where
  "diagnostics p tauFinal s =
     (let cfFinal = CfLowerHistory s ! (length (CfLowerHistory s) - 1);
          nuFinal = NuLowerHistory s ! (length (NuLowerHistory s) - 1);
          rise = rise_loop tauFinal cfFinal (CfLowerHistory s) (tauHistory s) 0
                   (tauFinal, tauFinal);
          ts = [0..<length (WHistory s)]
      in \<lparr>tauHistory = tauHistory s, WHistory = WHistory s, ThetaHistory = ThetaHistory s,
          CfLowerHistory = CfLowerHistory s, CfUpperHistory = CfUpperHistory s,
          NuLowerHistory = NuLowerHistory s, NuUpperHistory = NuUpperHistory s,
          kineticEnergy = map (\<lambda>t. KE_of (N_p p) (grid_h p) (WHistory s ! t)) ts,
          thermalEnergy = map (\<lambda>t. TE_of (N_p p) (grid_h p) (ThetaHistory s ! t)) ts,
          viscousDissipation = map (\<lambda>t. VD_of p (WHistory s ! t)) ts,
          jouleHeating = map (\<lambda>t. JH_of p (WHistory s ! t)) ts,
          CfFinal = cfFinal, NuFinal = nuFinal, tau95 = fst rise, tau63 = snd rise\<rparr>)"

text \<open>
  \<^verbatim>\<open>solveUnsteadyMHDCouette(params, tauFinal, dtau, saveFreq)\<close>; \<open>None\<close> when the time
  loop does not end.
\<close>

definition solveUnsteadyMHDCouette :: "params \<Rightarrow> real \<Rightarrow> real \<Rightarrow> nat \<Rightarrow> solution option" where
  "solveUnsteadyMHDCouette p tauFinal dtau saveFreq =
     (case step_count tauFinal dtau of
        None \<Rightarrow> None
      | Some Nt \<Rightarrow> Some (diagnostics p tauFinal (time_loop p dtau saveFreq Nt)))"

subsection \<open>The genetic optimizer\<close>

text \<open>
  An individual is an object with one number per search dimension. The bounds object is
  the list of its entries \<open>(k, min, max)\<close> in the order in which \<^verbatim>\<open>Object.entries\<close> and
  \<^verbatim>\<open>Object.keys\<close> enumerate them. The random source is the stream of the values that
  the successive calls of \<^verbatim>\<open>Math.random()\<close> return.
\<close>

type_synonym individual = "string \<rightharpoonup> real"
type_synonym bounds_spec = "(string \<times> real \<times> real) list"
type_synonym rng = "real stream"

text \<open>
  Reading \<^verbatim>\<open>p[k]\<close> as a number. In the optimizer every individual has every key of the
  bounds (see \<open>within_bounds\<close> below); for a missing key the source computes with
  \<^verbatim>\<open>undefined\<close>, which is outside the model.
\<close>

definition val :: "individual \<Rightarrow> string \<Rightarrow> real" where
  "val p k = the (p k)"

record options =
  populationSize :: "nat option"
  generations :: "nat option"
  mutationRate :: "real option"

record optimizer =
  fn :: "individual \<Rightarrow> real"
  bounds :: bounds_spec
  popSize :: nat
  gens :: nat
  mutRate :: real

text \<open>\<^verbatim>\<open>x || d\<close> on an optional number: \<open>d\<close> when \<open>x\<close> is missing or zero.\<close>

definition or_default :: "'a::zero option \<Rightarrow> 'a \<Rightarrow> 'a" where
  "or_default x d = (case x of None \<Rightarrow> d | Some v \<Rightarrow> if v = 0 then d else v)"

definition TransientOptimizer :: "(individual \<Rightarrow> real) \<Rightarrow> bounds_spec \<Rightarrow> options \<Rightarrow> optimizer" where
  "TransientOptimizer f bs opts =
     \<lparr>fn = f, bounds = bs,
      popSize = or_default (populationSize opts) 20,
      gens = or_default (generations opts) 30,
      mutRate = or_default (mutationRate opts) (15 / 100)\<rparr>"

text \<open>\<^verbatim>\<open>createInd()\<close>: one draw per entry of the bounds.\<close>

fun createInd_loop :: "bounds_spec \<Rightarrow> individual \<Rightarrow> rng \<Rightarrow> individual \<times> rng" where
  "createInd_loop [] i rs = (i, rs)"
| "createInd_loop ((k, mn, mx) # bs) i rs =
     createInd_loop bs (i(k \<mapsto> mn + shd rs * (mx - mn))) (stl rs)"

definition createInd :: "optimizer \<Rightarrow> rng \<Rightarrow> individual \<times> rng" where
  "createInd this rs = createInd_loop (bounds this) Map.empty rs"

text \<open>\<^verbatim>\<open>crossover(p1, p2)\<close>: a blend with one draw per key.\<close>

fun crossover_loop ::
  "string list \<Rightarrow> individual \<Rightarrow> individual \<Rightarrow> individual \<Rightarrow> rng \<Rightarrow> individual \<times> rng" where
  "crossover_loop [] p1 p2 child rs = (child, rs)"
| "crossover_loop (k # ks) p1 p2 child rs =
     (let a = shd rs
      in crossover_loop ks p1 p2 (child(k \<mapsto> a * val p1 k + (1 - a) * val p2 k)) (stl rs))"

definition crossover :: "optimizer \<Rightarrow> individual \<Rightarrow> individual \<Rightarrow> rng \<Rightarrow> individual \<times> rng" where
  "crossover this p1 p2 rs = crossover_loop (map fst (bounds this)) p1 p2 Map.empty rs"

text \<open>
  \<^verbatim>\<open>mutate(ind)\<close>: per entry one draw decides whether the value is perturbed, and a
  second draw, made only then, by how much; the result is clipped to the bounds.
\<close>

fun mutate_loop :: "real \<Rightarrow> bounds_spec \<Rightarrow> individual \<Rightarrow> rng \<Rightarrow> individual \<times> rng" where
  "mutate_loop rate [] m rs = (m, rs)"
| "mutate_loop rate ((k, mn, mx) # bs) m rs =
     (if shd rs < rate
      then mutate_loop rate bs
             (m(k \<mapsto> max mn (min mx (val m k + (shd (stl rs) - 1 / 2) * (mx - mn) * (4 / 10)))))
             (stl (stl rs))
      else mutate_loop rate bs m (stl rs))"

definition mutate :: "optimizer \<Rightarrow> individual \<Rightarrow> rng \<Rightarrow> individual \<times> rng" where
  "mutate this i rs = mutate_loop (mutRate this) (bounds this) i rs"

text \<open>
  The evaluated population \<^verbatim>\<open>ev\<close>: every individual with its fitness, sorted by
  descending fitness. The sort of the source is stable, as \<open>sort_key\<close> is.
\<close>

record scored =
  ind :: individual
  fit :: real

definition evaluate :: "optimizer \<Rightarrow> individual list \<Rightarrow> scored list" where
  "evaluate this ps = sort_key (\<lambda>e. - fit e) (map (\<lambda>i. \<lparr>ind = i, fit = fn this i\<rparr>) ps)"

text \<open>\<^verbatim>\<open>ev[Math.floor(Math.random() * ev.length)]\<close> for the draw \<open>r\<close>.\<close>

definition pick :: "scored list \<Rightarrow> real \<Rightarrow> scored" where
  "pick ev r = ev ! nat \<lfloor>r * real (length ev)\<rfloor>"

text \<open>
  The selection \<^verbatim>\<open>sel()\<close>: a first candidate, then a loop of two passes, each drawing a
  challenger that replaces the candidate when it is strictly fitter.
\<close>

definition sel :: "scored list \<Rightarrow> rng \<Rightarrow> individual \<times> rng" where
  "sel ev rs =
     (let b = pick ev (shd rs);
          r = for_loop 0 2 (\<lambda>i (b, rs).
                (let c = pick ev (shd rs) in (if fit c > fit b then c else b, stl rs)))
                (b, stl rs)
      in (ind (fst r), snd r))"


text \<open>
  One child (line 565): the arguments of \<^verbatim>\<open>crossover\<close> are evaluated from left to
  right, then \<^verbatim>\<open>crossover\<close> and \<^verbatim>\<open>mutate\<close> draw in turn.
\<close>

definition make_child :: "optimizer \<Rightarrow> scored list \<Rightarrow> rng \<Rightarrow> individual \<times> rng" where
  "make_child this ev rs =
     (let (p1, rs) = sel ev rs;
          (p2, rs) = sel ev rs;
          (c, rs) = crossover this p1 p2 rs
      in mutate this c rs)"

text \<open>\<^verbatim>\<open>while (newPop.length < this.popSize) newPop.push(...)\<close>.\<close>

function fill_loop ::
  "optimizer \<Rightarrow> scored list \<Rightarrow> individual list \<Rightarrow> rng \<Rightarrow> individual list \<times> rng" where
  "fill_loop this ev newPop rs =
     (if length newPop < popSize this
      then (let (m, rs') = make_child this ev rs in fill_loop this ev (newPop @ [m]) rs')
      else (newPop, rs))"
  by pat_completeness auto
termination
  by (relation "measure (\<lambda>(this, ev, newPop, rs). popSize this - length newPop)")
     (auto split: prod.splits)

declare fill_loop.simps [simp del]

text \<open>The initial population: \<open>n\<close> individuals, created in order.\<close>

fun create_pop :: "optimizer \<Rightarrow> nat \<Rightarrow> rng \<Rightarrow> individual list \<times> rng" where
  "create_pop this 0 rs = ([], rs)"
| "create_pop this (Suc n) rs =
     (let (i, rs) = createInd this rs; (is, rs) = create_pop this n rs in (i # is, rs))"

datatype error = TypeError

text \<open>The argument of one call of \<^verbatim>\<open>onProgress\<close>.\<close>

record report =
  generation :: nat
  totalGenerations :: nat
  bestFitness :: real
  bestIndividual :: individual

text \<open>
  The state of \<^verbatim>\<open>optimize\<close>: the population, the best individual so far with its
  fitness (\<open>None\<close> for the initial \<^verbatim>\<open>null\<close> and \<^verbatim>\<open>-Infinity\<close>), the random source, the
  calls of \<^verbatim>\<open>onProgress\<close> made so far, and the exception thrown, if any.
\<close>

record opt_state =
  pop :: "individual list"
  best :: "(individual \<times> real) option"
  rng_state :: rng
  progress :: "report list"
  thrown :: "error option"

text \<open>
  The body of the loop over the generations (lines 558 to 567); the \<^verbatim>\<open>await\<close> at its
  end only yields. Once an exception is thrown no further pass runs. Reading
  \<^verbatim>\<open>ev[0].fit\<close> of an empty population and \<^verbatim>\<open>ev[1].ind\<close> of a population of one throw
  a \<^verbatim>\<open>TypeError\<close>, the latter after the progress report of the generation.
\<close>

definition optimize_step :: "optimizer \<Rightarrow> nat \<Rightarrow> opt_state \<Rightarrow> opt_state" where
  "optimize_step this g s =
     (if thrown s \<noteq> None then s
      else
        (case evaluate this (pop s) of
           [] \<Rightarrow> s\<lparr>thrown := Some TypeError\<rparr>
         | e0 # es \<Rightarrow>
             (let b = (case best s of
                         None \<Rightarrow> (ind e0, fit e0)
                       | Some (bi, bestFit) \<Rightarrow>
                           if fit e0 > bestFit then (ind e0, fit e0) else (bi, bestFit));
                  s1 = s\<lparr>best := Some b,
                         progress := progress s @
                           [\<lparr>generation = g, totalGenerations = gens this,
                             bestFitness = snd b, bestIndividual = fst b\<rparr>]\<rparr>
              in case es of
                   [] \<Rightarrow> s1\<lparr>thrown := Some TypeError\<rparr>
                 | e1 # _ \<Rightarrow>
                     (let (newPop, rs) = fill_loop this (e0 # es) [ind e0, ind e1] (rng_state s1)
                      in s1\<lparr>pop := newPop, rng_state := rs\<rparr>))))"

definition opt_init :: "optimizer \<Rightarrow> rng \<Rightarrow> opt_state" where
  "opt_init this rs =
     (let (ps, rs') = create_pop this (popSize this) rs
      in \<lparr>pop = ps, best = None, rng_state = rs', progress = [], thrown = None\<rparr>)"

text \<open>The state after the first \<open>k\<close> passes of the loop over the generations.\<close>

definition opt_after :: "optimizer \<Rightarrow> rng \<Rightarrow> nat \<Rightarrow> opt_state" where
  "opt_after this rs k = for_loop 0 k (optimize_step this) (opt_init this rs)"

text \<open>
  \<^verbatim>\<open>optimize(onProgress)\<close>: the calls of \<^verbatim>\<open>onProgress\<close>, and the exception or the
  returned pair of the best individual and its fitness.
\<close>

definition optimize :: "optimizer \<Rightarrow> rng \<Rightarrow> report list \<times> (error + (individual \<times> real) option)" where
  "optimize this rs =
     (let s = opt_after this rs (gens this)
      in (progress s, case thrown s of Some e \<Rightarrow> Inl e | None \<Rightarrow> Inr (best s)))"

text \<open>
  An individual within the bounds: it has a value for every search dimension, and the
  value lies in the declared interval.
\<close>

definition within_bounds :: "bounds_spec \<Rightarrow> individual \<Rightarrow> bool" where
  "within_bounds bs i = (\<forall>(k, mn, mx) \<in> set bs. \<exists>v. i k = Some v \<and> mn \<le> v \<and> v \<le> mx)"



subsection \<open>Concrete inputs\<close>

text \<open>
  A grid of one interval with no slip, no magnetic field and no heating: the linear
  Couette profile \<open>[0, 1]\<close> is already steady.
\<close>

definition unit_couette :: params where
  "unit_couette =
     \<lparr>A1 = 1, A2 = 1, A3 = 1, A4 = 1, A5 = 1, Re_p = 1, Ha = 0, Pr = 1, Ec = 0, Bi = 0,
      lambda = 0, G_p = 0, N_p = 1\<rparr>"

text \<open>
  A grid of two intervals with viscous heating (\<open>Ec = 1\<close>): the velocity is steady, the
  temperature is not, and its Picard iteration contracts by the factor \<open>4 / 9\<close> only.
\<close>

definition heated_couette :: params where
  "heated_couette =
     \<lparr>A1 = 1, A2 = 1, A3 = 1, A4 = 1, A5 = 1, Re_p = 1, Ha = 0, Pr = 1, Ec = 1, Bi = 0,
      lambda = 0, G_p = 0, N_p = 2\<rparr>"

text \<open>
  A grid of two intervals driven by a pressure gradient (\<open>G = 2\<close>): the velocity at the
  middle node rises from step to step, and the lower skin friction with it.
\<close>

definition driven_couette :: params where
  "driven_couette =
     \<lparr>A1 = 1, A2 = 1, A3 = 1, A4 = 1, A5 = 1, Re_p = 1, Ha = 0, Pr = 1, Ec = 0, Bi = 0,
      lambda = 0, G_p = 2, N_p = 2\<rparr>"

text \<open>The run of two steps of size \<open>1\<close> of the driven flow, saving every step.\<close>

definition driven_run :: "solution option" where
  "driven_run = solveUnsteadyMHDCouette driven_couette 2 1 1"



text \<open>
  An optimizer over the one dimension \<open>Ha\<close> in \<open>[0, 8]\<close> whose fitness is the value of
  \<open>Ha\<close> itself, with a population of three, two generations and the default mutation
  rate; and a random source for it. The first three draws create the population, the
  next six select the first entry of the evaluated population twice, the next one blends
  and the last two mutate upwards; from then on every draw is \<open>0\<close>.
\<close>

definition ha_optimizer :: optimizer where
  "ha_optimizer =
     TransientOptimizer (\<lambda>i. val i ''Ha'') [(''Ha'', 0, 8)]
       \<lparr>populationSize = Some 3, generations = Some 2, mutationRate = None\<rparr>"

definition ha_draws :: rng where
  "ha_draws = [1 / 2, 1 / 4, 1 / 8, 0, 0, 0, 0, 0, 0, 1 / 2, 1 / 10, 3 / 4] @- sconst 0"

section \<open>Auxiliary facts about loops over arrays\<close>

lemma for_loop_length:
  assumes "\<And>i a. length (body i a) = length a"
  shows "length (for_loop lo hi body xs) = length xs"
proof -
  have "length (fold body is xs) = length xs" for "is"
    by (induction "is" arbitrary: xs) (simp_all add: assms)
  then show ?thesis by (simp add: for_loop_def)
qed

lemma for_loop_Suc:
  "lo \<le> hi \<Longrightarrow> for_loop lo (Suc hi) body s = body hi (for_loop lo hi body s)"
  by (simp add: for_loop_def)

lemma for_loop_sum:
  "for_loop 0 n (\<lambda>i (acc::real). acc + g i) a = a + (\<Sum>i<n. g i)"
  by (induction n) (simp_all add: for_loop_def)

lemma W_update_length: "length (W_update p dtau W_old W_prev W) = length W"
  by (simp add: W_update_def Let_def for_loop_length)

lemma W_update_0:
  "1 \<le> N_p p \<Longrightarrow> 0 < length W \<Longrightarrow> W_update p dtau W_old W_prev W ! 0 = 0"
  by (simp add: W_update_def Let_def for_loop_length)

lemma W_update_N:
  "N_p p < length W \<Longrightarrow> lambda p = 0 \<Longrightarrow> W_update p dtau W_old W_prev W ! N_p p = Re_p p"
  by (simp add: W_update_def Let_def for_loop_length)

lemma Theta_update_length: "length (Theta_update p dtau T_old T_prev W Wp T) = length T"
  by (simp add: Theta_update_def Let_def for_loop_length)

lemma Theta_update_0:
  "1 \<le> N_p p \<Longrightarrow> 0 < length T \<Longrightarrow> Theta_update p dtau T_old T_prev W Wp T ! 0 = 1"
  by (simp add: Theta_update_def Let_def for_loop_length)

section \<open>Auxiliary facts about the Picard iteration\<close>

lemma picard_iter_lengths:
  "length (fst (picard_iter p dtau W_old T_old s)) = length (fst s) \<and>
   length (snd (picard_iter p dtau W_old T_old s)) = length (snd s)"
  by (simp add: picard_iter_def Let_def W_update_length Theta_update_length)

lemma picard_iter_lower:
  assumes "1 \<le> N_p p" "0 < length (fst s)" "0 < length (snd s)"
  shows "fst (picard_iter p dtau W_old T_old s) ! 0 = 0 \<and>
         snd (picard_iter p dtau W_old T_old s) ! 0 = 1"
  using assms by (simp add: picard_iter_def Let_def W_update_0 Theta_update_0)

lemma picard_iter_upper:
  assumes "lambda p = 0" "N_p p < length (fst s)"
  shows "fst (picard_iter p dtau W_old T_old s) ! N_p p = Re_p p"
  using assms by (simp add: picard_iter_def Let_def W_update_N)

lemma picard_loop_funpow:
  "\<exists>m. (iter < 15 \<longrightarrow> 1 \<le> m) \<and> iter + m \<le> max iter 15 \<and>
     picard_loop p dtau W_old T_old iter s = ((picard_iter p dtau W_old T_old ^^ m) s, iter + m) \<and>
     (\<forall>j. 1 \<le> j \<and> j < m \<longrightarrow>
        \<not> maxDiff (N_p p) ((picard_iter p dtau W_old T_old ^^ (j - 1)) s)
             ((picard_iter p dtau W_old T_old ^^ j) s) < tolerance) \<and>
     (iter + m < 15 \<longrightarrow>
        maxDiff (N_p p) ((picard_iter p dtau W_old T_old ^^ (m - 1)) s)
          ((picard_iter p dtau W_old T_old ^^ m) s) < tolerance)"
proof (induction p dtau W_old T_old iter s rule: picard_loop.induct)
  case (1 p dtau W_old T_old iter s)
  let ?F = "picard_iter p dtau W_old T_old"
  show ?case
  proof (cases "iter < 15")
    case False
    then have "picard_loop p dtau W_old T_old iter s = (s, iter)"
      by (simp add: picard_loop.simps)
    with False show ?thesis
      by (intro exI [of _ 0]) simp
  next
    case True
    show ?thesis
    proof (cases "maxDiff (N_p p) s (?F s) < tolerance")
      case conv: True
      with True have "picard_loop p dtau W_old T_old iter s = (?F s, iter + 1)"
        by (simp add: picard_loop.simps [of p dtau W_old T_old iter s] Let_def)
      with True conv show ?thesis
        by (intro exI [of _ 1]) simp
    next
      case nconv: False
      with True have eq: "picard_loop p dtau W_old T_old iter s =
          picard_loop p dtau W_old T_old (iter + 1) (?F s)"
        by (simp add: picard_loop.simps [of p dtau W_old T_old iter s] Let_def)
      from "1.IH" [OF True refl nconv] obtain m where
        m0: "iter + 1 < 15 \<longrightarrow> 1 \<le> m" and
        m: "iter + 1 + m \<le> max (iter + 1) 15"
           "picard_loop p dtau W_old T_old (iter + 1) (?F s) = ((?F ^^ m) (?F s), iter + 1 + m)"
           "\<forall>j. 1 \<le> j \<and> j < m \<longrightarrow>
              \<not> maxDiff (N_p p) ((?F ^^ (j - 1)) (?F s)) ((?F ^^ j) (?F s)) < tolerance"
           "iter + 1 + m < 15 \<longrightarrow>
              maxDiff (N_p p) ((?F ^^ (m - 1)) (?F s)) ((?F ^^ m) (?F s)) < tolerance"
        by blast
      have shift: "(?F ^^ k) (?F s) = (?F ^^ Suc k) s" for k
        by (simp add: funpow_swap1)
      have early: "\<not> maxDiff (N_p p) ((?F ^^ (j - 1)) s) ((?F ^^ j) s) < tolerance"
        if "1 \<le> j" "j < Suc m" for j
      proof (cases "j = 1")
        case True
        with nconv show ?thesis by simp
      next
        case False
        with that obtain j' where j': "j = Suc j'" "1 \<le> j'" "j' < m"
          by (cases j) auto
        with m(3) have "\<not> maxDiff (N_p p) ((?F ^^ (j' - 1)) (?F s)) ((?F ^^ j') (?F s)) < tolerance"
          by blast
        moreover from j' have "Suc (j' - 1) = j'" by simp
        ultimately show ?thesis
          using j' by (simp add: shift del: funpow.simps)
      qed
      have last: "maxDiff (N_p p) ((?F ^^ (Suc m - 1)) s) ((?F ^^ Suc m) s) < tolerance"
        if "iter + Suc m < 15"
      proof (cases m)
        case 0
        with that m0 show ?thesis
          by simp
      next
        case (Suc m')
        with m(4) that have "maxDiff (N_p p) ((?F ^^ m') (?F s)) ((?F ^^ Suc m') (?F s)) < tolerance"
          by simp
        then show ?thesis
          using Suc by (simp add: shift del: funpow.simps)
      qed
      show ?thesis
        apply (intro exI [of _ "Suc m"])
        using True m(1) m(2) eq early last by (auto simp add: shift simp del: funpow.simps)
    qed
  qed
qed

lemma for_loop_max_less:
  fixes x y :: "nat \<Rightarrow> real"
  shows "for_loop 0 k (\<lambda>i m. max (max m (x i)) (y i)) m0 < t \<longleftrightarrow>
         m0 < t \<and> (\<forall>i < k. x i < t \<and> y i < t)"
proof (induction k)
  case 0
  show ?case by (simp add: for_loop_def)
next
  case (Suc k)
  have "for_loop 0 (Suc k) (\<lambda>i m. max (max m (x i)) (y i)) m0 =
        max (max (for_loop 0 k (\<lambda>i m. max (max m (x i)) (y i)) m0) (x k)) (y k)"
    by (simp add: for_loop_Suc)
  with Suc show ?case
    by (auto simp add: less_Suc_eq)
qed

lemma maxDiff_less_iff:
  "maxDiff n prev cur < tolerance \<longleftrightarrow>
     (\<forall>i \<le> n. \<bar>fst cur ! i - fst prev ! i\<bar> < tolerance \<and>
              \<bar>snd cur ! i - snd prev ! i\<bar> < tolerance)"
proof -
  have "0 < tolerance"
    by (simp add: tolerance_def)
  then show ?thesis
    unfolding maxDiff_def for_loop_max_less by (auto simp add: less_Suc_eq_le)
qed

section \<open>Auxiliary facts about the time loop\<close>

lemma funpow_picard_iter_lengths:
  "length (fst ((picard_iter p dtau W_old T_old ^^ m) s)) = length (fst s) \<and>
   length (snd ((picard_iter p dtau W_old T_old ^^ m) s)) = length (snd s)"
  by (induction m) (simp_all add: picard_iter_lengths)

lemma picard_result:
  "\<exists>m. 1 \<le> m \<and> m \<le> 15 \<and>
     picard p dtau s = (picard_iter p dtau (fst s) (snd s) ^^ m) s"
proof -
  from picard_loop_funpow [of 0 p dtau "fst s" "snd s" s]
  obtain m where "1 \<le> m" "m \<le> 15"
    "picard_loop p dtau (fst s) (snd s) 0 s = ((picard_iter p dtau (fst s) (snd s) ^^ m) s, m)"
    by auto
  then show ?thesis
    by (auto simp: picard_def)
qed

lemma picard_lengths:
  "length (fst (picard p dtau s)) = length (fst s) \<and>
   length (snd (picard p dtau s)) = length (snd s)"
proof -
  from picard_result [of p dtau s] obtain m where
    "picard p dtau s = (picard_iter p dtau (fst s) (snd s) ^^ m) s"
    by blast
  then show ?thesis
    by (simp add: funpow_picard_iter_lengths)
qed

lemma picard_lower:
  assumes "1 \<le> N_p p" "0 < length (fst s)" "0 < length (snd s)"
  shows "fst (picard p dtau s) ! 0 = 0 \<and> snd (picard p dtau s) ! 0 = 1"
proof -
  let ?F = "picard_iter p dtau (fst s) (snd s)"
  from picard_result [of p dtau s] obtain m where
    m: "1 \<le> m" "picard p dtau s = (?F ^^ m) s"
    by blast
  then obtain m' where m': "m = Suc m'"
    by (cases m) auto
  have "0 < length (fst ((?F ^^ m') s))" "0 < length (snd ((?F ^^ m') s))"
    using assms by (simp_all add: funpow_picard_iter_lengths)
  then show ?thesis
    using picard_iter_lower [OF assms(1), of "(?F ^^ m') s" dtau "fst s" "snd s"]
    by (simp add: m m')
qed

lemma picard_upper:
  assumes "lambda p = 0" "N_p p < length (fst s)"
  shows "fst (picard p dtau s) ! N_p p = Re_p p"
proof -
  let ?F = "picard_iter p dtau (fst s) (snd s)"
  from picard_result [of p dtau s] obtain m where
    m: "1 \<le> m" "picard p dtau s = (?F ^^ m) s"
    by blast
  then obtain m' where m': "m = Suc m'"
    by (cases m) auto
  have "N_p p < length (fst ((?F ^^ m') s))"
    using assms by (simp add: funpow_picard_iter_lengths)
  then show ?thesis
    using picard_iter_upper [OF assms(1), of "(?F ^^ m') s" dtau "fst s" "snd s"]
    by (simp add: m m')
qed

lemma state_after_0: "state_after p dtau saveFreq Nt 0 = initial_state p"
  by (simp add: state_after_def for_loop_def)

lemma state_after_Suc:
  "state_after p dtau saveFreq Nt (Suc k) =
     time_step p dtau saveFreq Nt (Suc k) (state_after p dtau saveFreq Nt k)"
  using for_loop_Suc [of 1 "Suc k"] by (simp add: state_after_def)

lemma record_sample_fields:
  "cur_W (record_sample p tau s) = cur_W s"
  "cur_Theta (record_sample p tau s) = cur_Theta s"
  "tauHistory (record_sample p tau s) = tauHistory s @ [tau]"
  "WHistory (record_sample p tau s) = WHistory s @ [cur_W s]"
  "ThetaHistory (record_sample p tau s) = ThetaHistory s @ [cur_Theta s]"
  "length (CfLowerHistory (record_sample p tau s)) = Suc (length (CfLowerHistory s))"
  by (simp_all add: record_sample_def Let_def)

lemma time_step_fields:
  "cur_W (time_step p dtau saveFreq Nt n s) = fst (picard p dtau (cur_W s, cur_Theta s))"
  "cur_Theta (time_step p dtau saveFreq Nt n s) = snd (picard p dtau (cur_W s, cur_Theta s))"
  by (simp_all add: time_step_def Let_def record_sample_fields)

lemma time_step_histories:
  "(WHistory (time_step p dtau saveFreq Nt n s) = WHistory s \<and>
    ThetaHistory (time_step p dtau saveFreq Nt n s) = ThetaHistory s \<and>
    tauHistory (time_step p dtau saveFreq Nt n s) = tauHistory s \<and>
    length (CfLowerHistory (time_step p dtau saveFreq Nt n s)) = length (CfLowerHistory s)) \<or>
   (WHistory (time_step p dtau saveFreq Nt n s) =
      WHistory s @ [cur_W (time_step p dtau saveFreq Nt n s)] \<and>
    ThetaHistory (time_step p dtau saveFreq Nt n s) =
      ThetaHistory s @ [cur_Theta (time_step p dtau saveFreq Nt n s)] \<and>
    tauHistory (time_step p dtau saveFreq Nt n s) = tauHistory s @ [real n * dtau] \<and>
    length (CfLowerHistory (time_step p dtau saveFreq Nt n s)) = Suc (length (CfLowerHistory s)))"
  by (simp add: time_step_def Let_def record_sample_fields)

lemma W_init_props:
  "length (W_init p) = N_p p + 1" "W_init p ! 0 = 0"
  by (simp_all add: W_init_def eta_def del: upt_Suc)

lemma Theta_init_props:
  "length (Theta_init p) = N_p p + 1" "Theta_init p ! 0 = 1"
  by (simp_all add: Theta_init_def eta_def del: upt_Suc)

lemma initial_state_fields:
  "cur_W (initial_state p) = W_init p"
  "cur_Theta (initial_state p) = Theta_init p"
  "tauHistory (initial_state p) = [0]"
  "WHistory (initial_state p) = [W_init p]"
  "ThetaHistory (initial_state p) = [Theta_init p]"
  "length (CfLowerHistory (initial_state p)) = Suc 0"
  by (simp_all add: initial_state_def record_sample_fields)

section \<open>Invariants of the time loop and of the rise-time search\<close>

lemma state_after_boundary:
  assumes "1 \<le> N_p p"
  shows "length (cur_W (state_after p dtau saveFreq Nt k)) = N_p p + 1 \<and>
         length (cur_Theta (state_after p dtau saveFreq Nt k)) = N_p p + 1 \<and>
         cur_W (state_after p dtau saveFreq Nt k) ! 0 = 0 \<and>
         cur_Theta (state_after p dtau saveFreq Nt k) ! 0 = 1 \<and>
         (\<forall>Wt \<in> set (WHistory (state_after p dtau saveFreq Nt k)). Wt ! 0 = 0) \<and>
         (\<forall>Tt \<in> set (ThetaHistory (state_after p dtau saveFreq Nt k)). Tt ! 0 = 1)"
proof (induction k)
  case 0
  show ?case
    by (simp add: state_after_0 initial_state_fields W_init_props Theta_init_props)
next
  case (Suc k)
  let ?s = "state_after p dtau saveFreq Nt k"
  let ?s' = "time_step p dtau saveFreq Nt (Suc k) ?s"
  from Suc have len: "length (cur_W ?s) = N_p p + 1" "length (cur_Theta ?s) = N_p p + 1"
    by simp_all
  have len': "length (cur_W ?s') = N_p p + 1" "length (cur_Theta ?s') = N_p p + 1"
    using len picard_lengths [of p dtau "(cur_W ?s, cur_Theta ?s)"]
    by (simp_all add: time_step_fields)
  have low: "cur_W ?s' ! 0 = 0" "cur_Theta ?s' ! 0 = 1"
    using picard_lower [OF assms, of "(cur_W ?s, cur_Theta ?s)" dtau] len
    by (simp_all add: time_step_fields)
  from Suc have hist: "\<forall>Wt \<in> set (WHistory ?s). Wt ! 0 = 0"
    "\<forall>Tt \<in> set (ThetaHistory ?s). Tt ! 0 = 1"
    by simp_all
  have "(\<forall>Wt \<in> set (WHistory ?s'). Wt ! 0 = 0) \<and> (\<forall>Tt \<in> set (ThetaHistory ?s'). Tt ! 0 = 1)"
    using time_step_histories [of p dtau saveFreq Nt "Suc k" ?s] hist low
    by auto
  with len' low show ?case
    by (simp add: state_after_Suc)
qed

lemma state_after_upper:
  assumes "lambda p = 0"
  shows "length (cur_W (state_after p dtau saveFreq Nt k)) = N_p p + 1 \<and>
         (1 \<le> k \<longrightarrow> cur_W (state_after p dtau saveFreq Nt k) ! N_p p = Re_p p)"
proof (induction k)
  case 0
  show ?case
    by (simp add: state_after_0 initial_state_fields W_init_props)
next
  case (Suc k)
  let ?s = "state_after p dtau saveFreq Nt k"
  let ?s' = "time_step p dtau saveFreq Nt (Suc k) ?s"
  from Suc have len: "length (cur_W ?s) = N_p p + 1"
    by simp
  have "length (cur_W ?s') = N_p p + 1"
    using len picard_lengths [of p dtau "(cur_W ?s, cur_Theta ?s)"]
    by (simp add: time_step_fields)
  moreover have "cur_W ?s' ! N_p p = Re_p p"
    using picard_upper [OF assms, of "(cur_W ?s, cur_Theta ?s)" dtau] len
    by (simp add: time_step_fields)
  ultimately show ?case
    by (simp add: state_after_Suc)
qed

lemma state_after_histories:
  "length (tauHistory (state_after p dtau saveFreq Nt k)) =
     length (CfLowerHistory (state_after p dtau saveFreq Nt k)) \<and>
   length (WHistory (state_after p dtau saveFreq Nt k)) =
     length (CfLowerHistory (state_after p dtau saveFreq Nt k)) \<and>
   length (ThetaHistory (state_after p dtau saveFreq Nt k)) =
     length (CfLowerHistory (state_after p dtau saveFreq Nt k)) \<and>
   CfLowerHistory (state_after p dtau saveFreq Nt k) \<noteq> []"
proof (induction k)
  case 0
  show ?case
    by (simp add: state_after_0 initial_state_fields flip: length_greater_0_conv)
next
  case (Suc k)
  let ?s = "state_after p dtau saveFreq Nt k"
  from Suc time_step_histories [of p dtau saveFreq Nt "Suc k" ?s] show ?case
    by (auto simp add: state_after_Suc)
qed



section \<open>The solver on the concrete inputs\<close>

lemmas solver_eval =
  for_loop_def grid_h_def eta_def W_init_def Theta_init_def W_update_def Theta_update_def
  deriv_def picard_iter_def Let_def eval_nat_numeral

lemma driven_init:
  "W_init driven_couette = [0, 1 / 2, 1]" "Theta_init driven_couette = [1, 1, 1]"
  by (simp_all add: solver_eval driven_couette_def)

lemma driven_iter:
  "picard_iter driven_couette 1 [0, w, 1] [1, 1, 1] ([0, v, 1], [1, 1, 1]) =
     ([0, (6 + w) / 9, 1], [1, 1, 1])"
  by (simp add: solver_eval driven_couette_def)

lemma driven_maxDiff:
  "maxDiff (N_p driven_couette) ([0, v, 1], [1, 1, 1]) ([0, u, 1], [1, 1, 1]) = max 0 \<bar>u - v\<bar>"
  by (simp add: maxDiff_def for_loop_def driven_couette_def eval_nat_numeral)

lemma driven_picard:
  "picard driven_couette 1 ([0, w, 1], [1, 1, 1]) = ([0, (6 + w) / 9, 1], [1, 1, 1])"
  by (simp add: picard_def picard_loop.simps [of _ _ _ _ _ "(_, [_, _, _])"]
      driven_iter driven_maxDiff tolerance_def Let_def)

lemma driven_sample:
  "record_sample driven_couette tau
     \<lparr>tauHistory = ts, WHistory = Ws, ThetaHistory = Ts, CfLowerHistory = cl,
      CfUpperHistory = cu, NuLowerHistory = nl, NuUpperHistory = nu,
      cur_W = [0, w, 1], cur_Theta = [1, 1, 1]\<rparr> =
     \<lparr>tauHistory = ts @ [tau], WHistory = Ws @ [[0, w, 1]], ThetaHistory = Ts @ [[1, 1, 1]],
      CfLowerHistory = cl @ [2 * w], CfUpperHistory = cu @ [2 - 2 * w],
      NuLowerHistory = nl @ [0], NuUpperHistory = nu @ [0],
      cur_W = [0, w, 1], cur_Theta = [1, 1, 1]\<rparr>"
  by (simp add: record_sample_def deriv_def for_loop_def grid_h_def driven_couette_def Let_def
      eval_nat_numeral algebra_simps)

lemma driven_time_loop:
  "time_loop driven_couette 1 1 2 =
     \<lparr>tauHistory = [0, 1, 2],
      WHistory = [[0, 1 / 2, 1], [0, 13 / 18, 1], [0, 121 / 162, 1]],
      ThetaHistory = [[1, 1, 1], [1, 1, 1], [1, 1, 1]],
      CfLowerHistory = [1, 13 / 9, 121 / 81], CfUpperHistory = [1, 5 / 9, 41 / 81],
      NuLowerHistory = [0, 0, 0], NuUpperHistory = [0, 0, 0],
      cur_W = [0, 121 / 162, 1], cur_Theta = [1, 1, 1]\<rparr>"
  by (simp add: time_loop_def state_after_def for_loop_def eval_nat_numeral time_step_def
      initial_state_def driven_init driven_sample driven_picard Let_def)

lemma driven_rise:
  "rise_loop 2 (121 / 81) [1, 13 / 9, 121 / 81] [0, 1, 2] 0 (2, 2) = (1, 0)"
  by (simp add: rise_loop.simps [of _ _ "[_, _, _]"] Let_def)

lemma driven_energies:
  "KE_of (N_p driven_couette) (grid_h driven_couette) [0, w, 1] = (2 * w\<^sup>2 + 1) / 4"
  "TE_of (N_p driven_couette) (grid_h driven_couette) [1, 1, 1] = 1"
  "VD_of driven_couette [0, w, 1] = 0"
  "JH_of driven_couette [0, w, 1] = 0"
  by (simp_all add: KE_of_def TE_of_def VD_of_def JH_of_def for_loop_def grid_h_def
      driven_couette_def eval_nat_numeral Let_def algebra_simps)

lemma driven_solution:
  "driven_run =
     Some \<lparr>tauHistory = [0, 1, 2],
           WHistory = [[0, 1 / 2, 1], [0, 13 / 18, 1], [0, 121 / 162, 1]],
           ThetaHistory = [[1, 1, 1], [1, 1, 1], [1, 1, 1]],
           CfLowerHistory = [1, 13 / 9, 121 / 81], CfUpperHistory = [1, 5 / 9, 41 / 81],
           NuLowerHistory = [0, 0, 0], NuUpperHistory = [0, 0, 0],
           kineticEnergy = [3 / 8, 331 / 648, 27763 / 52488],
           thermalEnergy = [1, 1, 1], viscousDissipation = [0, 0, 0],
           jouleHeating = [0, 0, 0], CfFinal = 121 / 81, NuFinal = 0,
           tau95 = 1, tau63 = 0\<rparr>"
proof -
  have Nt: "step_count 2 1 = Some 2"
    by (simp add: step_count_def)
  show ?thesis
    unfolding driven_run_def solveUnsteadyMHDCouette_def Nt option.case driven_time_loop
    by (simp add: diagnostics_def Let_def driven_rise driven_energies eval_nat_numeral
        power2_eq_square)
qed

lemma driven_run_fields:
  assumes "driven_run = Some sol"
  shows "tauHistory sol = [0, 1, 2]"
    and "WHistory sol = [[0, 1 / 2, 1], [0, 13 / 18, 1], [0, 121 / 162, 1]]"
    and "ThetaHistory sol = [[1, 1, 1], [1, 1, 1], [1, 1, 1]]"
    and "CfLowerHistory sol = [1, 13 / 9, 121 / 81]"
    and "kineticEnergy sol = [3 / 8, 331 / 648, 27763 / 52488]"
    and "tau63 sol = 0"
    and "tau95 sol = 1"
  using assms by (auto simp add: driven_solution)

lemma heated_iter:
  "picard_iter heated_couette 1 [0, 1 / 2, 1] [1, 1, 1] ([0, 1 / 2, 1], [1, t1, t2]) =
     ([0, 1 / 2, 1], [1, (6 + 4 * t2) / 9, (6 + 4 * t2) / 9])"
  by (simp add: solver_eval heated_couette_def)

lemma heated_maxDiff:
  "maxDiff (N_p heated_couette) ([0, 1 / 2, 1], [1, t1, t2]) ([0, 1 / 2, 1], [1, u1, u2]) =
     max (max 0 \<bar>u1 - t1\<bar>) \<bar>u2 - t2\<bar>"
  by (simp add: maxDiff_def for_loop_def heated_couette_def eval_nat_numeral)

lemma heated_picard_loop:
  "picard_loop heated_couette 1 [0, 1 / 2, 1] [1, 1, 1] 0 ([0, 1 / 2, 1], [1, 1, 1]) =
     (([0, 1 / 2, 1],
       [1, 247069143765214 / 205891132094649, 247069143765214 / 205891132094649]), 15)"
  by (simp add: picard_loop.simps [of _ _ _ _ _ "(_, [_, _, _])"] heated_iter heated_maxDiff
      tolerance_def)

lemma driven_picard_loop:
  "picard_loop driven_couette 1 [0, 1 / 2, 1] [1, 1, 1] 0 ([0, 1 / 2, 1], [1, 1, 1]) =
     (([0, 13 / 18, 1], [1, 1, 1]), 2)"
  by (simp add: picard_loop.simps [of _ _ _ _ _ "(_, [_, _, _])"] driven_iter driven_maxDiff
      tolerance_def)

section \<open>Auxiliary facts about the optimizer\<close>

lemma sel_unfold:
  "sel ev rs =
     (let c0 = pick ev (shd rs); c1 = pick ev (shd (stl rs)); c2 = pick ev (shd (stl (stl rs)));
          b1 = (if fit c1 > fit c0 then c1 else c0);
          b2 = (if fit c2 > fit b1 then c2 else b1)
      in (ind b2, stl (stl (stl rs))))"
  by (simp add: sel_def for_loop_def eval_nat_numeral Let_def)




lemma opt_after_0: "opt_after this rs 0 = opt_init this rs"
  by (simp add: opt_after_def for_loop_def)

lemma opt_after_Suc:
  "opt_after this rs (Suc k) = optimize_step this k (opt_after this rs k)"
  using for_loop_Suc [of 0 k] by (simp add: opt_after_def)

lemma opt_init_fields:
  "best (opt_init this rs) = None" "progress (opt_init this rs) = []"
  "thrown (opt_init this rs) = None"
  "pop (opt_init this rs) = fst (create_pop this (popSize this) rs)"
  "rng_state (opt_init this rs) = snd (create_pop this (popSize this) rs)"
  by (simp_all add: opt_init_def split: prod.splits)

lemma sorted_le_last:
  fixes ys :: "real list"
  assumes "sorted ys" and "x \<in> set ys"
  shows "x \<le> last ys"
proof -
  from assms(2) obtain n where n: "n < length ys" "ys ! n = x"
    by (auto simp: in_set_conv_nth)
  then have "ys \<noteq> []"
    by auto
  then have "last ys = ys ! (length ys - 1)"
    by (rule last_conv_nth)
  moreover from n have "ys ! n \<le> ys ! (length ys - 1)"
    by (intro sorted_nth_mono [OF assms(1)]) auto
  ultimately show ?thesis
    using n by simp
qed

text \<open>The best pair and the log of reports move together.\<close>

lemma optimize_step_log:
  assumes "case best s of
             None \<Rightarrow> progress s = []
           | Some (bi, bf) \<Rightarrow> progress s \<noteq> [] \<and> bestFitness (last (progress s)) = bf \<and>
               bestIndividual (last (progress s)) = bi"
    and "sorted (map bestFitness (progress s))"
  shows "(case best (optimize_step this g s) of
            None \<Rightarrow> progress (optimize_step this g s) = []
          | Some (bi, bf) \<Rightarrow> progress (optimize_step this g s) \<noteq> [] \<and>
              bestFitness (last (progress (optimize_step this g s))) = bf \<and>
              bestIndividual (last (progress (optimize_step this g s))) = bi) \<and>
         sorted (map bestFitness (progress (optimize_step this g s)))"
proof -
  have le_last: "x \<le> bestFitness (last (progress s))"
    if "x \<in> set (map bestFitness (progress s))" "progress s \<noteq> []" for x
  proof -
    from that(2) have "last (map bestFitness (progress s)) = bestFitness (last (progress s))"
      by (simp add: last_map)
    with assms(2) that(1) show ?thesis
      using sorted_le_last [of "map bestFitness (progress s)" x] by simp
  qed
  show ?thesis
    using assms le_last
    by (auto simp add: optimize_step_def Let_def sorted_append
        split: list.splits option.splits prod.splits if_splits) fastforce+
qed

lemma opt_after_log:
  "(case best (opt_after this rs k) of
      None \<Rightarrow> progress (opt_after this rs k) = []
    | Some (bi, bf) \<Rightarrow> progress (opt_after this rs k) \<noteq> [] \<and>
        bestFitness (last (progress (opt_after this rs k))) = bf \<and>
        bestIndividual (last (progress (opt_after this rs k))) = bi) \<and>
   sorted (map bestFitness (progress (opt_after this rs k)))"
proof (induction k)
  case 0
  show ?case by (simp add: opt_after_0 opt_init_fields)
next
  case (Suc k)
  then show ?case
    unfolding opt_after_Suc by (intro optimize_step_log) simp_all
qed





lemma within_bounds_val:
  "within_bounds bs i \<Longrightarrow> (k, mn, mx) \<in> set bs \<Longrightarrow> i k = Some (val i k) \<and> mn \<le> val i k \<and> val i k \<le> mx"
  by (fastforce simp add: within_bounds_def val_def)










lemma evaluate_length: "length (evaluate this ps) = length ps"
  by (simp add: evaluate_def)






section \<open>The optimizer on the concrete inputs\<close>

lemma ha_fields:
  "bounds ha_optimizer = [(''Ha'', 0, 8)]" "popSize ha_optimizer = 3" "gens ha_optimizer = 2"
  "mutRate ha_optimizer = 15 / 100" "fn ha_optimizer i = val i ''Ha''"
  by (simp_all add: ha_optimizer_def TransientOptimizer_def or_default_def)

lemma ha_init:
  "opt_init ha_optimizer ha_draws =
     \<lparr>pop = [[''Ha'' \<mapsto> 4], [''Ha'' \<mapsto> 2], [''Ha'' \<mapsto> 1]], best = None,
      rng_state = 0 ## 0 ## 0 ## 0 ## 0 ## 0 ## 1 / 2 ## 1 / 10 ## 3 / 4 ## sconst 0,
      progress = [], thrown = None\<rparr>"
  by (simp add: opt_init_def ha_fields eval_nat_numeral createInd_def ha_draws_def)

lemma ha_evaluate:
  "evaluate ha_optimizer [[''Ha'' \<mapsto> a], [''Ha'' \<mapsto> b], [''Ha'' \<mapsto> c]] =
     sort_key (\<lambda>e. - fit e) [\<lparr>ind = [''Ha'' \<mapsto> a], fit = a\<rparr>, \<lparr>ind = [''Ha'' \<mapsto> b], fit = b\<rparr>,
       \<lparr>ind = [''Ha'' \<mapsto> c], fit = c\<rparr>]"
  by (simp add: evaluate_def ha_fields val_def)

lemma ha_pick0: "pick [e0, e1, e2] 0 = e0"
  by (simp add: pick_def)

lemma ha_sel0: "sel [e0, e1, e2] (0 ## 0 ## 0 ## rs) = (ind e0, rs)"
  by (simp add: sel_unfold ha_pick0 Let_def)

lemma ha_child1:
  "make_child ha_optimizer [\<lparr>ind = [''Ha'' \<mapsto> 4], fit = 4\<rparr>, e1, e2]
     (0 ## 0 ## 0 ## 0 ## 0 ## 0 ## 1 / 2 ## 1 / 10 ## 3 / 4 ## sconst 0) =
     ([''Ha'' \<mapsto> 24 / 5], sconst 0)"
  by (simp add: make_child_def ha_sel0 crossover_def mutate_def ha_fields val_def Let_def)

lemma ha_child2:
  "make_child ha_optimizer [\<lparr>ind = [''Ha'' \<mapsto> 24 / 5], fit = 24 / 5\<rparr>, e1, e2] (sconst 0) =
     ([''Ha'' \<mapsto> 16 / 5], sconst 0)"
proof -
  have s: "sconst (0::real) = 0 ## 0 ## 0 ## sconst 0"
    by (metis id_apply siterate.code)
  have "sel [\<lparr>ind = [''Ha'' \<mapsto> 24 / 5], fit = 24 / 5\<rparr>, e1, e2] (sconst 0) = ([''Ha'' \<mapsto> 24 / 5], sconst 0)"
    by (subst s) (simp add: ha_sel0)
  then show ?thesis
    by (simp add: make_child_def crossover_def mutate_def ha_fields val_def Let_def)
qed

lemma ha_step0:
  "opt_after ha_optimizer ha_draws 1 =
     \<lparr>pop = [[''Ha'' \<mapsto> 4], [''Ha'' \<mapsto> 2], [''Ha'' \<mapsto> 24 / 5]], best = Some ([''Ha'' \<mapsto> 4], 4),
      rng_state = sconst 0,
      progress = [\<lparr>generation = 0, totalGenerations = 2, bestFitness = 4,
                   bestIndividual = [''Ha'' \<mapsto> 4]\<rparr>],
      thrown = None\<rparr>"
  unfolding One_nat_def opt_after_Suc opt_after_0 ha_init
  by (simp add: optimize_step_def ha_evaluate Let_def ha_fields
      fill_loop.simps [of _ _ "[_, _]"] fill_loop.simps [of _ _ "[_, _, _]"] ha_child1)

lemma ha_step1:
  "opt_after ha_optimizer ha_draws 2 =
     \<lparr>pop = [[''Ha'' \<mapsto> 24 / 5], [''Ha'' \<mapsto> 4], [''Ha'' \<mapsto> 16 / 5]],
      best = Some ([''Ha'' \<mapsto> 24 / 5], 24 / 5),
      rng_state = sconst 0,
      progress = [\<lparr>generation = 0, totalGenerations = 2, bestFitness = 4,
                   bestIndividual = [''Ha'' \<mapsto> 4]\<rparr>,
                  \<lparr>generation = 1, totalGenerations = 2, bestFitness = 24 / 5,
                   bestIndividual = [''Ha'' \<mapsto> 24 / 5]\<rparr>],
      thrown = None\<rparr>"
proof -
  have "opt_after ha_optimizer ha_draws 2 =
        optimize_step ha_optimizer 1 (opt_after ha_optimizer ha_draws 1)"
    using opt_after_Suc [of ha_optimizer ha_draws 1] by (simp add: eval_nat_numeral)
  then show ?thesis
    unfolding ha_step0
    by (simp add: optimize_step_def ha_evaluate Let_def ha_fields
        fill_loop.simps [of _ _ "[_, _]"] fill_loop.simps [of _ _ "[_, _, _]"] ha_child2)
qed

lemma ha_optimize:
  "optimize ha_optimizer ha_draws =
     ([\<lparr>generation = 0, totalGenerations = 2, bestFitness = 4, bestIndividual = [''Ha'' \<mapsto> 4]\<rparr>,
       \<lparr>generation = 1, totalGenerations = 2, bestFitness = 24 / 5,
        bestIndividual = [''Ha'' \<mapsto> 24 / 5]\<rparr>],
      Inr (Some ([''Ha'' \<mapsto> 24 / 5], 24 / 5)))"
  by (simp add: optimize_def ha_fields ha_step1)



section \<open>Properties\<close>

subsection \<open>The mixture calculator\<close>


lemma known_particle_denominators:
  assumes "NANOPARTICLES type = Some p"
  shows "k_p p + 2 * k_f \<noteq> 0" and "sigma_p p / sigma_f + 2 \<noteq> 0"
  using assms by (auto simp: NANOPARTICLES_def k_f_def sigma_f_def split: if_splits)

text \<open>
  C3 (as amended). For every particle type of the database and volume fraction
  \<open>phi = 0\<close>, the calculator returns all five ratios equal to \<open>1\<close>. The restriction to
  the types of the database is needed: for any other type the guard of the function
  returns the fixed default ratios, whatever \<open>phi\<close> is.
\<close>

theorem ratios_one_at_phi_zero:
  assumes "type \<in> dom NANOPARTICLES"
  shows "computeNanofluidProperties type 0 = \<lparr>A1 = 1, A2 = 1, A3 = 1, A4 = 1, A5 = 1\<rparr>"
proof -
  from assms obtain p where p: "NANOPARTICLES type = Some p"
    by blast
  have "k_p p + 2 * k_f \<noteq> 0"
    by (rule known_particle_denominators(1) [OF p])
  moreover have "sigma_p p / sigma_f + 2 \<noteq> 0"
    by (rule known_particle_denominators(2) [OF p])
  ultimately show ?thesis
    by (simp add: computeNanofluidProperties_def p Let_def rho_f_def Cp_f_def)
qed

theorem ratios_one_at_phi_zero_witness:
  "''Cu'' \<in> dom NANOPARTICLES \<and>
   computeNanofluidProperties ''Cu'' 0 = \<lparr>A1 = 1, A2 = 1, A3 = 1, A4 = 1, A5 = 1\<rparr>"
proof -
  have h: "''Cu'' \<in> dom NANOPARTICLES"
    by (simp add: NANOPARTICLES_def)
  show ?thesis
    using h ratios_one_at_phi_zero [OF h] by simp
qed

text \<open>
  The claim as stated, for every input with \<open>phi = 0\<close>, fails at a type that is not in
  the database: the first ratio returned is \<open>1.2\<close>.
\<close>

theorem ratios_one_at_phi_zero_counterexample:
  "A1 (computeNanofluidProperties ''Unobtainium'' 0) = 12 / 10 \<and>
   computeNanofluidProperties ''Unobtainium'' 0 \<noteq> \<lparr>A1 = 1, A2 = 1, A3 = 1, A4 = 1, A5 = 1\<rparr>"
  by (simp add: computeNanofluidProperties_def NANOPARTICLES_def)



subsection \<open>The transient solver and its diagnostics\<close>

text \<open>
  C1 (as amended). In every completed solve there is one recorded kinetic energy for
  every saved time sample, and it equals the sum over the intervals \<open>i = 0, \<dots>, N - 1\<close> of
  \<open>(W[i]\<^sup>2 + W[i+1]\<^sup>2) / 2 \<sqdot> h\<close>: the trapezoidal rule for the integrand \<open>W\<^sup>2\<close>, which is
  twice the trapezoidal rule for the integrand \<open>W\<^sup>2 / 2\<close> that the claim states.
\<close>

theorem kinetic_energy_is_trapezoid_of_square:
  assumes "solveUnsteadyMHDCouette p tauFinal dtau saveFreq = Some sol"
  shows "length (kineticEnergy sol) = length (tauHistory sol) \<and>
         length (WHistory sol) = length (tauHistory sol) \<and>
         (\<forall>t < length (tauHistory sol).
            kineticEnergy sol ! t =
              (\<Sum>i<N_p p. ((WHistory sol ! t ! i)\<^sup>2 + (WHistory sol ! t ! (i + 1))\<^sup>2) / 2 * grid_h p) \<and>
            kineticEnergy sol ! t = 2 * KE_spec (N_p p) (grid_h p) (WHistory sol ! t))"
proof -
  from assms obtain Nt where sol: "sol = diagnostics p tauFinal (time_loop p dtau saveFreq Nt)"
    by (auto simp: solveUnsteadyMHDCouette_def split: option.splits)
  let ?s = "time_loop p dtau saveFreq Nt"
  have len: "length (WHistory ?s) = length (tauHistory ?s)"
    using state_after_histories [of p dtau saveFreq Nt Nt] by (simp add: time_loop_def)
  have KE: "KE_of n h Wt = (\<Sum>i<n. ((Wt ! i)\<^sup>2 + (Wt ! (i + 1))\<^sup>2) / 2 * h)" for n h Wt
    by (simp add: KE_of_def for_loop_sum)
  have half: "(\<Sum>i<n. ((Wt ! i)\<^sup>2 + (Wt ! (i + 1))\<^sup>2) / 2 * h) = 2 * KE_spec n h Wt" for n h Wt
    by (simp add: KE_spec_def sum_distrib_left algebra_simps)
  have lens: "length (kineticEnergy sol) = length (tauHistory sol)"
    "length (WHistory sol) = length (tauHistory sol)"
    by (simp_all add: sol diagnostics_def Let_def len)
  have ke: "kineticEnergy sol ! t = KE_of (N_p p) (grid_h p) (WHistory sol ! t)"
    if "t < length (tauHistory sol)" for t
    using that by (simp add: sol diagnostics_def Let_def len)
  show ?thesis
  proof (intro conjI allI impI)
    fix t assume t: "t < length (tauHistory sol)"
    show "kineticEnergy sol ! t =
        (\<Sum>i<N_p p. ((WHistory sol ! t ! i)\<^sup>2 + (WHistory sol ! t ! (i + 1))\<^sup>2) / 2 * grid_h p)"
      by (simp only: ke [OF t] KE)
    show "kineticEnergy sol ! t = 2 * KE_spec (N_p p) (grid_h p) (WHistory sol ! t)"
      by (simp only: ke [OF t] KE half)
  qed (rule lens)+
qed

theorem kinetic_energy_is_trapezoid_of_square_witness:
  "\<exists>sol. driven_run = Some sol \<and>
      length (kineticEnergy sol) = 3 \<and> length (tauHistory sol) = 3 \<and>
      kineticEnergy sol ! 1 = 331 / 648 \<and>
      kineticEnergy sol ! 1 =
        2 * KE_spec (N_p driven_couette) (grid_h driven_couette) (WHistory sol ! 1)"
proof -
  obtain sol where sol: "driven_run = Some sol"
    by (simp add: driven_solution)
  have f: "tauHistory sol = [0, 1, 2]"
    "kineticEnergy sol = [3 / 8, 331 / 648, 27763 / 52488]"
    by (rule driven_run_fields [OF sol])+
  from kinetic_energy_is_trapezoid_of_square [OF sol [unfolded driven_run_def]]
  have "\<forall>t < length (tauHistory sol). kineticEnergy sol ! t =
      2 * KE_spec (N_p driven_couette) (grid_h driven_couette) (WHistory sol ! t)"
    by blast
  moreover have "1 < length (tauHistory sol)"
    by (simp add: f)
  ultimately have "kineticEnergy sol ! 1 =
      2 * KE_spec (N_p driven_couette) (grid_h driven_couette) (WHistory sol ! 1)"
    by blast
  with sol f show ?thesis
    by (intro exI [of _ sol]) simp
qed

text \<open>
  The claim as stated fails on the run of two steps of the driven flow: the energies
  recorded for its three samples are twice the values of the stated formula.
\<close>

theorem kinetic_energy_counterexample:
  "map_option kineticEnergy driven_run = Some [3 / 8, 331 / 648, 27763 / 52488] \<and>
   map_option WHistory driven_run =
     Some [[0, 1 / 2, 1], [0, 13 / 18, 1], [0, 121 / 162, 1]] \<and>
   map (KE_spec (N_p driven_couette) (grid_h driven_couette))
     [[0, 1 / 2, 1], [0, 13 / 18, 1], [0, 121 / 162, 1]] =
     [3 / 16, 331 / 1296, 27763 / 104976] \<and>
   map_option kineticEnergy driven_run \<noteq>
     Some (map (KE_spec (N_p driven_couette) (grid_h driven_couette))
            [[0, 1 / 2, 1], [0, 13 / 18, 1], [0, 121 / 162, 1]])"
  by (simp add: driven_solution KE_spec_def grid_h_def driven_couette_def eval_nat_numeral
      power2_eq_square)

text \<open>
  C2. For every parameter set with a grid of at least one interval and with
  \<open>lambda \<noteq> -1\<close> and \<open>Bi \<noteq> -1\<close> (in particular for every valid one, where both are
  non-negative), and for every solver invocation, \<open>W[0] = 0\<close> and \<open>Theta[0] = 1\<close> hold
  after every completed time step (after the first \<open>k\<close> passes of the time loop, for every
  \<open>k\<close>) and in every recorded sample of the trajectory that a solve returns, the initial
  one included; and the solve returns whenever the step size is not zero. The two
  conditions on \<open>lambda\<close> and \<open>Bi\<close> keep the initial condition away from \<open>0 / 0\<close>, which is
  NaN in the source; the proof does not need them.
\<close>

theorem lower_plate_invariant:
  assumes "1 \<le> N_p p" and "lambda p \<noteq> - 1" and "Bi p \<noteq> - 1"
  shows "(\<forall>Nt k. cur_W (state_after p dtau saveFreq Nt k) ! 0 = 0 \<and>
                  cur_Theta (state_after p dtau saveFreq Nt k) ! 0 = 1) \<and>
         (\<forall>sol. solveUnsteadyMHDCouette p tauFinal dtau saveFreq = Some sol \<longrightarrow>
            (\<forall>Wt \<in> set (WHistory sol). Wt ! 0 = 0) \<and>
            (\<forall>Tt \<in> set (ThetaHistory sol). Tt ! 0 = 1)) \<and>
         (dtau \<noteq> 0 \<longrightarrow> (\<exists>sol. solveUnsteadyMHDCouette p tauFinal dtau saveFreq = Some sol))"
proof -
  have steps: "cur_W (state_after p dtau saveFreq Nt k) ! 0 = 0 \<and>
               cur_Theta (state_after p dtau saveFreq Nt k) ! 0 = 1" for Nt k
    using state_after_boundary [OF assms(1), of dtau saveFreq Nt k] by simp
  have samples: "(\<forall>Wt \<in> set (WHistory sol). Wt ! 0 = 0) \<and>
                 (\<forall>Tt \<in> set (ThetaHistory sol). Tt ! 0 = 1)"
    if "solveUnsteadyMHDCouette p tauFinal dtau saveFreq = Some sol" for sol
  proof -
    from that obtain Nt where
      sol: "sol = diagnostics p tauFinal (state_after p dtau saveFreq Nt Nt)"
      by (auto simp: solveUnsteadyMHDCouette_def time_loop_def split: option.splits)
    show ?thesis
      using state_after_boundary [OF assms(1), of dtau saveFreq Nt Nt]
      by (simp add: sol diagnostics_def Let_def)
  qed
  have returns: "\<exists>sol. solveUnsteadyMHDCouette p tauFinal dtau saveFreq = Some sol"
    if "dtau \<noteq> 0"
    using that by (simp add: solveUnsteadyMHDCouette_def step_count_def)
  from steps samples returns show ?thesis
    by blast
qed

theorem lower_plate_invariant_witness:
  "1 \<le> N_p driven_couette \<and> lambda driven_couette \<noteq> - 1 \<and> Bi driven_couette \<noteq> - 1 \<and>
   cur_W (state_after driven_couette 1 1 2 1) ! 0 = 0 \<and>
   cur_Theta (state_after driven_couette 1 1 2 1) ! 0 = 1 \<and>
   cur_W (state_after driven_couette 1 1 2 2) ! 0 = 0 \<and>
   cur_Theta (state_after driven_couette 1 1 2 2) ! 0 = 1 \<and>
   (\<exists>sol. driven_run = Some sol \<and>
      WHistory sol = [[0, 1 / 2, 1], [0, 13 / 18, 1], [0, 121 / 162, 1]] \<and>
      ThetaHistory sol = [[1, 1, 1], [1, 1, 1], [1, 1, 1]] \<and>
      WHistory sol ! 1 ! 0 = 0 \<and> ThetaHistory sol ! 1 ! 0 = 1)"
proof -
  have h: "1 \<le> N_p driven_couette" "lambda driven_couette \<noteq> - 1" "Bi driven_couette \<noteq> - 1"
    by (simp_all add: driven_couette_def)
  note inv = lower_plate_invariant [OF h, where dtau = 1 and saveFreq = 1 and tauFinal = 2]
  from inv have "\<forall>Nt k. cur_W (state_after driven_couette 1 1 Nt k) ! 0 = 0 \<and>
                  cur_Theta (state_after driven_couette 1 1 Nt k) ! 0 = 1"
    by blast
  then have steps: "cur_W (state_after driven_couette 1 1 2 1) ! 0 = 0 \<and>
             cur_Theta (state_after driven_couette 1 1 2 1) ! 0 = 1 \<and>
             cur_W (state_after driven_couette 1 1 2 2) ! 0 = 0 \<and>
             cur_Theta (state_after driven_couette 1 1 2 2) ! 0 = 1"
    by blast
  obtain sol where sol: "driven_run = Some sol"
    by (simp add: driven_solution)
  from inv sol [unfolded driven_run_def]
  have all: "\<forall>Wt \<in> set (WHistory sol). Wt ! 0 = 0" "\<forall>Tt \<in> set (ThetaHistory sol). Tt ! 0 = 1"
    by blast+
  have f: "WHistory sol = [[0, 1 / 2, 1], [0, 13 / 18, 1], [0, 121 / 162, 1]]"
    "ThetaHistory sol = [[1, 1, 1], [1, 1, 1], [1, 1, 1]]"
    by (rule driven_run_fields [OF sol])+
  from all have "WHistory sol ! 1 ! 0 = 0" "ThetaHistory sol ! 1 ! 0 = 1"
    by (simp_all add: f)
  with steps h sol f show ?thesis
    by (intro conjI exI [of _ sol]) simp_all
qed

text \<open>
  C5. In every time step the Picard loop returns after \<open>k\<close> passes with
  \<open>1 \<le> k \<le> 15\<close>, and what it returns is the \<open>k\<close>-th iterate. No earlier pass met the
  tolerance: the loop leaves as soon as the largest absolute change over all nodes of
  both fields is below \<open>1e-10\<close>. When it returns before the 15th pass, the last pass met
  the tolerance; otherwise the budget is used up, and the result is the 15th iterate,
  with which the time step continues. The loop has no failing branch. The test
  \<open>maxDiff < tolerance\<close> holds exactly when the absolute change of the velocity and of
  the temperature is below \<open>1e-10\<close> at every node \<open>0, \<dots>, N\<close>.
\<close>

theorem picard_budget:
  "(\<exists>k. 1 \<le> k \<and> k \<le> 15 \<and>
     picard_loop p dtau W_old Theta_old 0 s =
       ((picard_iter p dtau W_old Theta_old ^^ k) s, k) \<and>
     (\<forall>j. 1 \<le> j \<and> j < k \<longrightarrow>
        \<not> maxDiff (N_p p) ((picard_iter p dtau W_old Theta_old ^^ (j - 1)) s)
             ((picard_iter p dtau W_old Theta_old ^^ j) s) < tolerance) \<and>
     (k < 15 \<longrightarrow>
        maxDiff (N_p p) ((picard_iter p dtau W_old Theta_old ^^ (k - 1)) s)
          ((picard_iter p dtau W_old Theta_old ^^ k) s) < tolerance)) \<and>
   (\<forall>prev cur. maxDiff (N_p p) prev cur < tolerance \<longleftrightarrow>
      (\<forall>i \<le> N_p p. \<bar>fst cur ! i - fst prev ! i\<bar> < tolerance \<and>
                   \<bar>snd cur ! i - snd prev ! i\<bar> < tolerance)) \<and>
   tolerance = 1 / 10 ^ 10"
  using picard_loop_funpow [of 0 p dtau W_old Theta_old s] maxDiff_less_iff [of "N_p p"]
  by (simp add: tolerance_def)

theorem picard_budget_witness:
  "snd (picard_loop heated_couette 1 [0, 1 / 2, 1] [1, 1, 1] 0 ([0, 1 / 2, 1], [1, 1, 1])) = 15 \<and>
   fst (picard_loop heated_couette 1 [0, 1 / 2, 1] [1, 1, 1] 0 ([0, 1 / 2, 1], [1, 1, 1])) =
     (picard_iter heated_couette 1 [0, 1 / 2, 1] [1, 1, 1] ^^ 15) ([0, 1 / 2, 1], [1, 1, 1]) \<and>
   \<not> maxDiff (N_p heated_couette)
       ((picard_iter heated_couette 1 [0, 1 / 2, 1] [1, 1, 1] ^^ 13) ([0, 1 / 2, 1], [1, 1, 1]))
       ((picard_iter heated_couette 1 [0, 1 / 2, 1] [1, 1, 1] ^^ 14) ([0, 1 / 2, 1], [1, 1, 1]))
     < tolerance \<and>
   snd (picard_loop driven_couette 1 [0, 1 / 2, 1] [1, 1, 1] 0 ([0, 1 / 2, 1], [1, 1, 1])) = 2 \<and>
   maxDiff (N_p driven_couette)
       ((picard_iter driven_couette 1 [0, 1 / 2, 1] [1, 1, 1] ^^ 1) ([0, 1 / 2, 1], [1, 1, 1]))
       ((picard_iter driven_couette 1 [0, 1 / 2, 1] [1, 1, 1] ^^ 2) ([0, 1 / 2, 1], [1, 1, 1]))
     < tolerance"
proof -
  let ?H = "picard_iter heated_couette 1 [0, 1 / 2, 1] [1, 1, 1]"
  let ?D = "picard_iter driven_couette 1 [0, 1 / 2, 1] [1, 1, 1]"
  let ?s = "([0, 1 / 2, 1], [1, 1, 1]) :: real list \<times> real list"
  from picard_budget [of heated_couette 1 "[0, 1 / 2, 1]" "[1, 1, 1]" ?s, THEN conjunct1]
  obtain k where k:
    "picard_loop heated_couette 1 [0, 1 / 2, 1] [1, 1, 1] 0 ?s = ((?H ^^ k) ?s, k)"
    "\<forall>j. 1 \<le> j \<and> j < k \<longrightarrow>
       \<not> maxDiff (N_p heated_couette) ((?H ^^ (j - 1)) ?s) ((?H ^^ j) ?s) < tolerance"
    by blast
  from k(1) have k15: "k = 15"
    by (simp add: heated_picard_loop)
  from k(2) have "1 \<le> (14::nat) \<and> 14 < k \<longrightarrow>
      \<not> maxDiff (N_p heated_couette) ((?H ^^ (14 - 1)) ?s) ((?H ^^ 14) ?s) < tolerance"
    by blast
  then have late: "\<not> maxDiff (N_p heated_couette) ((?H ^^ 13) ?s) ((?H ^^ 14) ?s) < tolerance"
    by (simp add: k15)
  from picard_budget [of driven_couette 1 "[0, 1 / 2, 1]" "[1, 1, 1]" ?s, THEN conjunct1]
  obtain m where m:
    "picard_loop driven_couette 1 [0, 1 / 2, 1] [1, 1, 1] 0 ?s = ((?D ^^ m) ?s, m)"
    "m < 15 \<longrightarrow> maxDiff (N_p driven_couette) ((?D ^^ (m - 1)) ?s) ((?D ^^ m) ?s) < tolerance"
    by blast
  from m(1) have m2: "m = 2"
    by (simp add: driven_picard_loop)
  from m(2) have early: "maxDiff (N_p driven_couette) ((?D ^^ 1) ?s) ((?D ^^ 2) ?s) < tolerance"
    by (simp add: m2)
  from k(1) m(1) late early show ?thesis
    by (simp only: k15 m2 fst_conv snd_conv simp_thms)
qed

text \<open>
  C7. With \<open>lambda = 0\<close> the formula for the upper boundary gives \<open>W[N] = Re\<close> in the
  velocity substep of every Picard iteration, on arrays of \<open>N + 1\<close> entries with
  \<open>1 \<le> N\<close>, and hence after every time step of the solver.
\<close>

theorem no_slip_upper_plate:
  assumes "lambda p = 0" and "1 \<le> N_p p" and "length W = N_p p + 1"
  shows "W_update p dtau W_old W_prev W ! N_p p = Re_p p \<and>
         fst (picard_iter p dtau W_old Theta_old (W, Theta)) ! N_p p = Re_p p \<and>
         (\<forall>k. 1 \<le> k \<longrightarrow> cur_W (state_after p dtau saveFreq Nt k) ! N_p p = Re_p p)"
proof -
  have "W_update p dtau W_old W_prev W ! N_p p = Re_p p"
    using assms by (simp add: W_update_N)
  moreover have "fst (picard_iter p dtau W_old Theta_old (W, Theta)) ! N_p p = Re_p p"
    using assms picard_iter_upper [of p "(W, Theta)" dtau W_old Theta_old] by simp
  moreover have "1 \<le> k \<longrightarrow> cur_W (state_after p dtau saveFreq Nt k) ! N_p p = Re_p p" for k
    using state_after_upper [OF assms(1), of dtau saveFreq Nt k] by simp
  ultimately show ?thesis
    by blast
qed

theorem no_slip_upper_plate_witness:
  "lambda heated_couette = 0 \<and> 1 \<le> N_p heated_couette \<and>
   length [5, 6, 7 :: real] = N_p heated_couette + 1 \<and>
   W_update heated_couette 1 [5, 6, 7] [5, 6, 7] [5, 6, 7] ! 2 = 1 \<and>
   cur_W (state_after heated_couette 1 1 3 2) ! 2 = 1"
proof -
  have h: "lambda heated_couette = 0" "1 \<le> N_p heated_couette"
    "length [5, 6, 7 :: real] = N_p heated_couette + 1"
    by (simp_all add: heated_couette_def)
  from no_slip_upper_plate [OF h, of 1 "[5, 6, 7]" "[5, 6, 7]" _ _ 1 3]
  have "W_update heated_couette 1 [5, 6, 7] [5, 6, 7] [5, 6, 7] ! N_p heated_couette =
          Re_p heated_couette"
    and "1 \<le> (2::nat) \<longrightarrow>
          cur_W (state_after heated_couette 1 1 3 2) ! N_p heated_couette = Re_p heated_couette"
    by blast+
  then have "W_update heated_couette 1 [5, 6, 7] [5, 6, 7] [5, 6, 7] ! 2 = 1"
    and "cur_W (state_after heated_couette 1 1 3 2) ! 2 = 1"
    by (simp_all add: heated_couette_def)
  with h show ?thesis
    by simp
qed



subsection \<open>The genetic optimizer\<close>




text \<open>
  C6. For every fitness function, every bounds specification and every sequence of
  random draws, the best fitness reported after each generation is a non-decreasing
  sequence, after any number of generations and for the whole run; and when the run
  returns a best individual, the returned best fitness is the last reported one and no
  reported one exceeds it. This also holds when the run ends in an exception.
\<close>

theorem best_fitness_nondecreasing:
  "sorted (map bestFitness (fst (optimize this rs))) \<and>
   (\<forall>k. sorted (map bestFitness (progress (opt_after this rs k)))) \<and>
   (\<forall>b. snd (optimize this rs) = Inr (Some b) \<longrightarrow>
      fst (optimize this rs) \<noteq> [] \<and>
      snd b = bestFitness (last (fst (optimize this rs))) \<and>
      (\<forall>r \<in> set (fst (optimize this rs)). bestFitness r \<le> snd b))"
proof -
  let ?s = "opt_after this rs (gens this)"
  have log: "fst (optimize this rs) = progress ?s"
    by (simp add: optimize_def Let_def)
  have sorted: "sorted (map bestFitness (progress (opt_after this rs k)))" for k
    using opt_after_log [of this rs k] by simp
  have final: "fst (optimize this rs) \<noteq> [] \<and>
      snd b = bestFitness (last (fst (optimize this rs))) \<and>
      (\<forall>r \<in> set (fst (optimize this rs)). bestFitness r \<le> snd b)"
    if "snd (optimize this rs) = Inr (Some b)" for b
  proof -
    from that have best: "best ?s = Some b"
      by (simp add: optimize_def Let_def split: option.splits)
    with opt_after_log [of this rs "gens this"]
    have ne: "progress ?s \<noteq> []" and last: "bestFitness (last (progress ?s)) = snd b"
      by (auto split: prod.splits)
    have "bestFitness r \<le> snd b" if "r \<in> set (progress ?s)" for r
    proof -
      from that have "bestFitness r \<in> set (map bestFitness (progress ?s))"
        by simp
      from sorted_le_last [OF sorted this] ne last show ?thesis
        by (simp add: last_map)
    qed
    with ne last show ?thesis
      by (simp add: log)
  qed
  have "sorted (map bestFitness (fst (optimize this rs)))"
    using sorted [of "gens this"] by (simp add: log)
  with sorted final show ?thesis
    by blast
qed

theorem best_fitness_nondecreasing_witness:
  "map bestFitness (fst (optimize ha_optimizer ha_draws)) = [4, 24 / 5] \<and>
   sorted (map bestFitness (fst (optimize ha_optimizer ha_draws))) \<and>
   snd (optimize ha_optimizer ha_draws) = Inr (Some ([''Ha'' \<mapsto> 24 / 5], 24 / 5)) \<and>
   bestFitness (last (fst (optimize ha_optimizer ha_draws))) = 24 / 5"
proof -
  have run: "snd (optimize ha_optimizer ha_draws) = Inr (Some ([''Ha'' \<mapsto> 24 / 5], 24 / 5))"
    by (simp add: ha_optimize)
  from best_fitness_nondecreasing [of ha_optimizer ha_draws] run
  have "sorted (map bestFitness (fst (optimize ha_optimizer ha_draws)))"
    and "snd ([''Ha'' \<mapsto> 24 / 5 :: real], 24 / 5 :: real) =
      bestFitness (last (fst (optimize ha_optimizer ha_draws)))"
    by blast+
  moreover have "map bestFitness (fst (optimize ha_optimizer ha_draws)) = [4, 24 / 5]"
    by (simp add: ha_optimize)
  ultimately show ?thesis
    using run by simp
qed



end
